theory Spec2Isabelle
  imports Main
begin

section \<open>CR7 Script: the scanner and the recursive-descent recognizer\<close>

text \<open>
  The repository holds the same front end twice: \<^verbatim>\<open>cr7_compiler.py\<close> (batch mode) and
  \<^verbatim>\<open>cr7_gui.py\<close> (interactive mode). The two files differ in the order of two entries of
  \<^verbatim>\<open>KEYWORDS\<close>, in \<^verbatim>\<open>parse_function\<close> (which tokens may name a function) and in
  \<^verbatim>\<open>parse_factor\<close> (call syntax). Every definition below that depends on the file takes
  the file as its first argument.
\<close>

datatype variant = Compiler | Gui

subsection \<open>Tokens\<close>

text \<open>
  The source names token categories by strings: the group names of \<^verbatim>\<open>token_specification\<close>,
  the names \<^verbatim>\<open>f"{group_name}_KEYWORD"\<close> built from the keys of \<^verbatim>\<open>KEYWORDS\<close>, and
  \<^verbatim>\<open>"EOF"\<close>. They form a closed set, which is the datatype \<open>kind\<close>; \<open>kind_name\<close> gives
  the string back where the source prints it.

  A source text is a \<open>string\<close>; a \<open>char\<close> stands for the code point of the same number
  (below 256).
\<close>

datatype kind =
    META | COMMENT | NUMBER | ASSIGN | COMMA | END | LPAREN | RPAREN | LBRACE | RBRACE
  | STRING | ID | OP | NEWLINE | SKIP | MISMATCH
  | FUNCTION_KEYWORD | TYPE_KEYWORD | CONTROL_KEYWORD | INPUT_KEYWORD | OUTPUT_KEYWORD
  | META_KEYWORD | EOF

fun kind_name :: "kind \<Rightarrow> string" where
  "kind_name META = ''META''"
| "kind_name COMMENT = ''COMMENT''"
| "kind_name NUMBER = ''NUMBER''"
| "kind_name ASSIGN = ''ASSIGN''"
| "kind_name COMMA = ''COMMA''"
| "kind_name END = ''END''"
| "kind_name LPAREN = ''LPAREN''"
| "kind_name RPAREN = ''RPAREN''"
| "kind_name LBRACE = ''LBRACE''"
| "kind_name RBRACE = ''RBRACE''"
| "kind_name STRING = ''STRING''"
| "kind_name ID = ''ID''"
| "kind_name OP = ''OP''"
| "kind_name NEWLINE = ''NEWLINE''"
| "kind_name SKIP = ''SKIP''"
| "kind_name MISMATCH = ''MISMATCH''"
| "kind_name FUNCTION_KEYWORD = ''FUNCTION_KEYWORD''"
| "kind_name TYPE_KEYWORD = ''TYPE_KEYWORD''"
| "kind_name CONTROL_KEYWORD = ''CONTROL_KEYWORD''"
| "kind_name INPUT_KEYWORD = ''INPUT_KEYWORD''"
| "kind_name OUTPUT_KEYWORD = ''OUTPUT_KEYWORD''"
| "kind_name META_KEYWORD = ''META_KEYWORD''"
| "kind_name EOF = ''EOF''"

type_synonym token = "kind \<times> string"

text \<open>
  \<^verbatim>\<open>KEYWORDS\<close>, in the order of its entries (a Python dict iterates in insertion order).
  Each key is paired with the category \<^verbatim>\<open>f"{group_name}_KEYWORD"\<close> it stands for.
\<close>

fun KEYWORDS :: "variant \<Rightarrow> (kind \<times> string list) list" where
  "KEYWORDS Compiler =
     [(FUNCTION_KEYWORD, [''play'', ''kickoff'', ''whistle'']),
      (TYPE_KEYWORD, [''goal'', ''player'', ''flag'', ''match'']),
      (CONTROL_KEYWORD, [''referee'', ''bench'', ''practice'', ''drill'']),
      (INPUT_KEYWORD, [''listen'']),
      (OUTPUT_KEYWORD, [''announce'']),
      (META_KEYWORD, [''#import'', ''stadium''])]"
| "KEYWORDS Gui =
     [(FUNCTION_KEYWORD, [''play'', ''kickoff'', ''whistle'']),
      (TYPE_KEYWORD, [''goal'', ''player'', ''flag'', ''match'']),
      (CONTROL_KEYWORD, [''referee'', ''bench'', ''practice'', ''drill'']),
      (OUTPUT_KEYWORD, [''announce'']),
      (INPUT_KEYWORD, [''listen'']),
      (META_KEYWORD, [''#import'', ''stadium''])]"

subsection \<open>The lexical patterns\<close>

text \<open>
  The character classes of the regular expressions, as Python's \<^verbatim>\<open>re\<close> reads them on
  \<^verbatim>\<open>str\<close> patterns: \<^verbatim>\<open>\d\<close> is a decimal digit, \<^verbatim>\<open>\w\<close> is an alphanumeric character or
  the underscore (below 256 the alphanumeric code points beyond ASCII are the letters
  and the superscript digits and fractions of Latin-1), and \<^verbatim>\<open>.\<close> is any character but
  the newline.
\<close>

definition is_digit :: "char \<Rightarrow> bool" where
  "is_digit c = (c \<in> set ''0123456789'')"

definition is_ascii_letter :: "char \<Rightarrow> bool" where
  "is_ascii_letter c =
     (c \<in> set ''ABCDEFGHIJKLMNOPQRSTUVWXYZabcdefghijklmnopqrstuvwxyz'')"

definition is_latin1_alnum :: "char \<Rightarrow> bool" where
  "is_latin1_alnum c =
     (let n = (of_char c :: nat) in
        n \<in> {170, 178, 179, 181, 185, 186, 188, 189, 190}
        \<or> (192 \<le> n \<and> n \<le> 214) \<or> (216 \<le> n \<and> n \<le> 246) \<or> (248 \<le> n \<and> n \<le> 255))"

definition is_word :: "char \<Rightarrow> bool" where
  "is_word c = (is_ascii_letter c \<or> is_digit c \<or> c = CHR ''_'' \<or> is_latin1_alnum c)"

definition is_op_char :: "char \<Rightarrow> bool" where
  "is_op_char c = (c \<in> set ''+-*/<>!='')"

definition is_blank :: "char \<Rightarrow> bool" where
  "is_blank c = (c = CHR '' '' \<or> c = CHR 0x09)"

definition newline :: char where
  "newline = CHR 0x0A"

definition dquote :: char where
  "dquote = CHR 0x22"

text \<open>
  A pattern is a function from the text that starts at the current position to the
  matched prefix, or \<open>None\<close> when the pattern does not match there. None of the
  patterns needs backtracking: every repetition is over a character class and is
  followed by nothing that the class could match.
\<close>

type_synonym pattern = "string \<Rightarrow> string option"

text \<open>A single given character: \<^verbatim>\<open>=\<close>, \<^verbatim>\<open>,\<close>, \<^verbatim>\<open>;\<close>, \<^verbatim>\<open>\(\<close>, \<^verbatim>\<open>\)\<close>, \<^verbatim>\<open>\{\<close>, \<^verbatim>\<open>\}\<close>, \<^verbatim>\<open>\n\<close>.\<close>

fun re_char :: "char \<Rightarrow> pattern" where
  "re_char x [] = None"
| "re_char x (c # cs) = (if c = x then Some [c] else None)"

text \<open>One or more characters of a class: \<^verbatim>\<open>[+\-*/<>!=]+\<close>, \<^verbatim>\<open>[ \t]+\<close>.\<close>

definition re_plus :: "(char \<Rightarrow> bool) \<Rightarrow> pattern" where
  "re_plus cls s = (if takeWhile cls s = [] then None else Some (takeWhile cls s))"

text \<open>\<^verbatim>\<open>#\w+\<close>\<close>

fun re_META :: pattern where
  "re_META [] = None"
| "re_META (c # cs) =
     (if c = CHR ''#'' \<and> takeWhile is_word cs \<noteq> [] then Some (c # takeWhile is_word cs)
      else None)"

text \<open>\<^verbatim>\<open>//.*\<close>\<close>

fun re_COMMENT :: pattern where
  "re_COMMENT (c # d # cs) =
     (if c = CHR ''/'' \<and> d = CHR ''/'' then Some (c # d # takeWhile (\<lambda>x. x \<noteq> newline) cs)
      else None)"
| "re_COMMENT _ = None"

text \<open>\<^verbatim>\<open>\d+(\.\d+)?\<close>\<close>

definition re_NUMBER :: pattern where
  "re_NUMBER s =
     (let whole = takeWhile is_digit s; rest = dropWhile is_digit s in
      if whole = [] then None
      else (case rest of
              c # cs \<Rightarrow>
                if c = CHR ''.'' \<and> takeWhile is_digit cs \<noteq> []
                then Some (whole @ c # takeWhile is_digit cs)
                else Some whole
            | [] \<Rightarrow> Some whole))"

text \<open>\<^verbatim>\<open>"[^"]*"\<close>\<close>

fun re_STRING :: pattern where
  "re_STRING [] = None"
| "re_STRING (c # cs) =
     (if c = dquote then
        (case dropWhile (\<lambda>x. x \<noteq> dquote) cs of
           [] \<Rightarrow> None
         | q # _ \<Rightarrow> Some (c # takeWhile (\<lambda>x. x \<noteq> dquote) cs @ [q]))
      else None)"

text \<open>\<^verbatim>\<open>[A-Za-z_]\w*\<close>\<close>

fun re_ID :: pattern where
  "re_ID [] = None"
| "re_ID (c # cs) =
     (if is_ascii_letter c \<or> c = CHR ''_'' then Some (c # takeWhile is_word cs) else None)"

text \<open>\<^verbatim>\<open>.\<close>\<close>

fun re_MISMATCH :: pattern where
  "re_MISMATCH [] = None"
| "re_MISMATCH (c # cs) = (if c \<noteq> newline then Some [c] else None)"

definition token_specification :: "(kind \<times> pattern) list" where
  "token_specification =
     [(META, re_META),
      (COMMENT, re_COMMENT),
      (NUMBER, re_NUMBER),
      (ASSIGN, re_char (CHR ''='')),
      (COMMA, re_char (CHR '','')),
      (END, re_char (CHR '';'')),
      (LPAREN, re_char (CHR ''('')),
      (RPAREN, re_char (CHR '')'')),
      (LBRACE, re_char (CHR ''{'')),
      (RBRACE, re_char (CHR ''}'')),
      (STRING, re_STRING),
      (ID, re_ID),
      (OP, re_plus is_op_char),
      (NEWLINE, re_char newline),
      (SKIP, re_plus is_blank),
      (MISMATCH, re_MISMATCH)]"

text \<open>
  \<^verbatim>\<open>token_regex\<close> joins the named groups with \<^verbatim>\<open>|\<close>: at a position the alternatives are
  tried from left to right and the first one that matches is the match; its group name is
  \<^verbatim>\<open>match.lastgroup\<close>.
\<close>

fun token_regex :: "(kind \<times> pattern) list \<Rightarrow> string \<Rightarrow> (kind \<times> string) option" where
  "token_regex [] s = None"
| "token_regex ((name, p) # alts) s =
     (case p s of Some v \<Rightarrow> Some (name, v) | None \<Rightarrow> token_regex alts s)"

text \<open>
  \<^verbatim>\<open>re.finditer\<close>: the matches from left to right, none overlapping. Where nothing
  matches the search moves on by one character; after an empty match it does the same.
\<close>

function finditer :: "string \<Rightarrow> (kind \<times> string) list" where
  "finditer [] = []"
| "finditer (c # cs) =
     (case token_regex token_specification (c # cs) of
        None \<Rightarrow> finditer cs
      | Some (name, v) \<Rightarrow> (name, v) # finditer (drop (length v - 1) cs))"
  by pat_completeness auto
termination
  by (relation "measure length") auto

subsection \<open>The scanner\<close>

text \<open>
  The inner loop of \<^verbatim>\<open>tokenize\<close> over \<^verbatim>\<open>KEYWORDS.items()\<close>: the first group that holds
  the spelling gives the category.
\<close>

fun reclassify :: "(kind \<times> string list) list \<Rightarrow> string \<Rightarrow> kind \<Rightarrow> kind" where
  "reclassify [] v k = k"
| "reclassify ((group_kind, words) # groups) v k =
     (if v \<in> set words then group_kind else reclassify groups v k)"

text \<open>
  The body of the \<^verbatim>\<open>for match in re.finditer(...)\<close> loop; \<open>tokens\<close> is the list built so
  far. \<^verbatim>\<open>raise RuntimeError(f"Unexpected token: {value}")\<close> is the result \<open>Inl\<close> of the
  message.
\<close>

fun tokenize_loop :: "variant \<Rightarrow> (kind \<times> string) list \<Rightarrow> token list \<Rightarrow> string + token list" where
  "tokenize_loop var [] tokens = Inr tokens"
| "tokenize_loop var ((k, v) # ms) tokens =
     (if k = COMMENT then tokenize_loop var ms tokens
      else if k = META then tokenize_loop var ms (tokens @ [(META_KEYWORD, v)])
      else if k = ID then tokenize_loop var ms (tokens @ [(reclassify (KEYWORDS var) v k, v)])
      else if k = SKIP \<or> k = NEWLINE then tokenize_loop var ms tokens
      else if k = MISMATCH then Inl (''Unexpected token: '' @ v)
      else tokenize_loop var ms (tokens @ [(k, v)]))"

definition tokenize :: "variant \<Rightarrow> string \<Rightarrow> string + token list" where
  "tokenize var code =
     (case tokenize_loop var (finditer code) [] of
        Inl e \<Rightarrow> Inl e
      | Inr tokens \<Rightarrow> Inr (tokens @ [(EOF, [])]))"

subsection \<open>The state of the recognizer and what it prints\<close>

text \<open>
  The lines the recognizer prints (batch mode) or appends to its output box (interactive
  mode), by what they say:
  \<^item> \<open>Starting\<close>: \<^verbatim>\<open>[Parser] Starting CR7 Script Parsing...\<close>;
  \<^item> \<open>Parsed c\<close>: the arrow line of the construct \<open>c\<close>, such as \<^verbatim>\<open>Function parsed\<close> or
    \<^verbatim>\<open>Function call parsed (add)\<close>;
  \<^item> \<open>Completed\<close>: \<^verbatim>\<open>[Parser] Parsing completed successfully\<close>;
  \<^item> \<open>Syntax_Error msg actual_value actual_kind\<close>:
    \<^verbatim>\<open>[Syntax Error] {msg} at token '{actual_value}' (type {actual_kind})\<close>.
\<close>

datatype construct =
    Meta_statement | Function | Declaration | Assignment | If_statement | While | For
  | For_init_declaration | For_update_assignment | For_update_increment
  | Output | Input | Return | Function_call string

datatype entry = Starting | Parsed construct | Completed | Syntax_Error string string kind

text \<open>
  \<^verbatim>\<open>class CR7Parser\<close>: the token list, the cursor \<^verbatim>\<open>self.pos\<close>, and the lines written so far
  to where the recognizer writes (standard output, or \<^verbatim>\<open>self.output_box\<close>).
\<close>

record parser =
  tokens :: "token list"
  pos :: nat
  out :: "entry list"

definition CR7Parser :: "token list \<Rightarrow> entry list \<Rightarrow> parser" where
  "CR7Parser toks output_box = \<lparr>tokens = toks, pos = 0, out = output_box\<rparr>"

text \<open>
  How a call of a method ends: it returns; it exits after a diagnostic (\<^verbatim>\<open>sys.exit(1)\<close>,
  \<^verbatim>\<open>raise SystemExit(1)\<close>); \<^verbatim>\<open>self.tokens[self.pos]\<close> raises \<^verbatim>\<open>IndexError\<close>; or the
  model's fuel is used up, which stands for a call that has not come back yet (every
  recursive call and every turn of a \<^verbatim>\<open>while\<close> loop takes one unit of depth). Each result
  carries the state reached. Python's limit on the depth of recursion is not part of
  the model.
\<close>

datatype outcome = Returned parser | SystemExit parser | IndexError parser | OutOfFuel parser

fun state_of :: "outcome \<Rightarrow> parser" where
  "state_of (Returned s) = s"
| "state_of (SystemExit s) = s"
| "state_of (IndexError s) = s"
| "state_of (OutOfFuel s) = s"

fun is_OutOfFuel :: "outcome \<Rightarrow> bool" where
  "is_OutOfFuel (OutOfFuel s) = True"
| "is_OutOfFuel _ = False"

fun is_IndexError :: "outcome \<Rightarrow> bool" where
  "is_IndexError (IndexError s) = True"
| "is_IndexError _ = False"

type_synonym proc = "parser \<Rightarrow> outcome"

text \<open>Statements in sequence: the first that does not return ends the method.\<close>

fun steps :: "proc list \<Rightarrow> proc" where
  "steps [] self = Returned self"
| "steps (m # ms) self =
     (case m self of Returned self' \<Rightarrow> steps ms self' | other \<Rightarrow> other)"

definition current_token :: "parser \<Rightarrow> token option" where
  "current_token self =
     (if pos self < length (tokens self) then Some (tokens self ! pos self) else None)"

text \<open>\<^verbatim>\<open>kind, value = self.current_token()\<close>, then the rest of the method.\<close>

definition peek :: "(token \<Rightarrow> proc) \<Rightarrow> proc" where
  "peek body self =
     (case current_token self of None \<Rightarrow> IndexError self | Some t \<Rightarrow> body t self)"

definition lookahead :: "parser \<Rightarrow> nat \<Rightarrow> token" where
  "lookahead self n =
     (if pos self + n < length (tokens self) then tokens self ! (pos self + n)
      else (EOF, []))"

definition log :: "entry \<Rightarrow> proc" where
  "log e self = Returned (self\<lparr>out := out self @ [e]\<rparr>)"

text \<open>\<^verbatim>\<open>self.pos += 1\<close>\<close>

definition advance :: proc where
  "advance self = Returned (self\<lparr>pos := pos self + 1\<rparr>)"

definition quoted :: "string \<Rightarrow> string" where
  "quoted v = CHR 0x27 # v @ [CHR 0x27]"

text \<open>
  \<^verbatim>\<open>error(msg, actual_kind, actual_value)\<close>; the two optional arguments are given together
  or not at all.
\<close>

fun error :: "string \<Rightarrow> token option \<Rightarrow> proc" where
  "error msg (Some (actual_kind, actual_value)) self =
     SystemExit (self\<lparr>out := out self @ [Syntax_Error msg actual_value actual_kind]\<rparr>)"
| "error msg None self =
     peek (\<lambda>(actual_kind, actual_value) self.
       SystemExit (self\<lparr>out := out self @ [Syntax_Error msg actual_value actual_kind]\<rparr>)) self"

text \<open>
  \<^verbatim>\<open>match(expected_type, expected_value)\<close>. The value it returns is the lexeme of the
  token it has consumed.
\<close>

definition match :: "kind \<Rightarrow> string option \<Rightarrow> proc" where
  "match expected_type expected_value =
     peek (\<lambda>(kind, value).
       if kind = expected_type \<and> (expected_value = None \<or> Some value = expected_value)
       then advance
       else error (''Expected '' @ kind_name expected_type
                   @ (case expected_value of
                        None \<Rightarrow> []
                      | Some v \<Rightarrow> if v = [] then [] else ''('' @ quoted v @ '')''))
                  (Some (kind, value)))"

subsection \<open>Expressions\<close>

fun parse_expr :: "variant \<Rightarrow> nat \<Rightarrow> proc"
  and parse_expr_while :: "variant \<Rightarrow> nat \<Rightarrow> proc"
  and parse_term :: "variant \<Rightarrow> nat \<Rightarrow> proc"
  and parse_term_while :: "variant \<Rightarrow> nat \<Rightarrow> proc"
  and parse_factor :: "variant \<Rightarrow> nat \<Rightarrow> proc"
  and parse_factor_while :: "variant \<Rightarrow> nat \<Rightarrow> proc"
where
  "parse_expr var 0 = OutOfFuel"
| "parse_expr var (Suc n) = steps [parse_term var n, parse_expr_while var n]"
| "parse_expr_while var 0 = OutOfFuel"
| "parse_expr_while var (Suc n) =
     peek (\<lambda>(kind, value).
       if kind = OP \<and> (value = ''+'' \<or> value = ''-'')
       then steps [match OP None, parse_term var n, parse_expr_while var n]
       else Returned)"
| "parse_term var 0 = OutOfFuel"
| "parse_term var (Suc n) = steps [parse_factor var n, parse_term_while var n]"
| "parse_term_while var 0 = OutOfFuel"
| "parse_term_while var (Suc n) =
     peek (\<lambda>(kind, value).
       if kind = OP \<and> (value = ''*'' \<or> value = ''/'')
       then steps [match OP None, parse_factor var n, parse_term_while var n]
       else Returned)"
| "parse_factor var 0 = OutOfFuel"
| "parse_factor Compiler (Suc n) =
     peek (\<lambda>(kind, value).
       if kind = NUMBER \<or> kind = STRING \<or> kind = ID then match kind None
       else if kind = LPAREN
       then steps [match LPAREN None, parse_expr Compiler n, match RPAREN None]
       else error ''Invalid factor'' None)"
| "parse_factor Gui (Suc n) =
     peek (\<lambda>(kind, value).
       if kind = ID \<or> kind = FUNCTION_KEYWORD then
         (\<lambda>self.
            if fst (lookahead self 1) = LPAREN
            then steps [match kind None,
                        match LPAREN None,
                        peek (\<lambda>(kind', value').
                          if kind' \<noteq> RPAREN
                          then steps [parse_expr Gui n, parse_factor_while Gui n]
                          else Returned),
                        match RPAREN None,
                        log (Parsed (Function_call value))] self
            else match kind None self)
       else if kind = NUMBER \<or> kind = STRING then match kind None
       else if kind = LPAREN
       then steps [match LPAREN None, parse_expr Gui n, match RPAREN None]
       else error ''Invalid factor'' None)"
| "parse_factor_while var 0 = OutOfFuel"
| "parse_factor_while var (Suc n) =
     peek (\<lambda>(kind, value).
       if kind = COMMA
       then steps [match COMMA None, parse_expr var n, parse_factor_while var n]
       else Returned)"

text \<open>
  \<^verbatim>\<open>parse_condition\<close>. The methods of this subsection that hold no loop take the depth
  only to hand it on.
\<close>

definition parse_condition :: "variant \<Rightarrow> nat \<Rightarrow> proc" where
  "parse_condition var n =
     steps [parse_expr var n,
            peek (\<lambda>(kind, value).
              if kind = OP then steps [match OP None, parse_expr var n]
              else error ''Expected relational operator in condition'' None)]"

subsection \<open>Statements\<close>

definition parse_declaration :: "variant \<Rightarrow> nat \<Rightarrow> proc" where
  "parse_declaration var n =
     steps [match TYPE_KEYWORD None,
            match ID None,
            peek (\<lambda>(kind, value).
              if kind = ASSIGN then steps [match ASSIGN None, parse_expr var n]
              else Returned),
            match END None,
            log (Parsed Declaration)]"

definition parse_assignment :: "variant \<Rightarrow> nat \<Rightarrow> proc" where
  "parse_assignment var n =
     steps [match ID None,
            match ASSIGN None,
            parse_expr var n,
            match END None,
            log (Parsed Assignment)]"

definition parse_declaration_in_for :: "variant \<Rightarrow> nat \<Rightarrow> proc" where
  "parse_declaration_in_for var n =
     steps [match TYPE_KEYWORD None,
            match ID None,
            peek (\<lambda>(kind, value).
              if kind = ASSIGN then steps [match ASSIGN None, parse_expr var n]
              else Returned),
            log (Parsed For_init_declaration)]"

definition parse_assignment_in_for :: "variant \<Rightarrow> nat \<Rightarrow> proc" where
  "parse_assignment_in_for var n =
     steps [match ID None,
            peek (\<lambda>(kind, value).
              if kind = ASSIGN
              then steps [match ASSIGN None, parse_expr var n,
                          log (Parsed For_update_assignment)]
              else if kind = OP \<and> (value = ''++'' \<or> value = ''--'')
              then steps [match OP None, log (Parsed For_update_increment)]
              else error ''Expected '=' or '++'/'--' in for update'' None)]"

definition parse_output :: "variant \<Rightarrow> nat \<Rightarrow> proc" where
  "parse_output var n =
     steps [match OUTPUT_KEYWORD None, parse_expr var n, match END None,
            log (Parsed Output)]"

definition parse_input :: proc where
  "parse_input =
     steps [match INPUT_KEYWORD None, match ID None, match END None, log (Parsed Input)]"

definition parse_return :: "variant \<Rightarrow> nat \<Rightarrow> proc" where
  "parse_return var n =
     steps [match FUNCTION_KEYWORD (Some ''whistle''), parse_expr var n, match END None,
            log (Parsed Return)]"

text \<open>
  \<^verbatim>\<open>parse_statement_list\<close> is the \<^verbatim>\<open>while\<close> loop itself: one statement, then the loop
  again. In \<^verbatim>\<open>parse_statement\<close> the branch for \<^verbatim>\<open>bench\<close> is a bare \<^verbatim>\<open>return\<close>.
\<close>

fun parse_statement_list :: "variant \<Rightarrow> nat \<Rightarrow> proc"
  and parse_statement :: "variant \<Rightarrow> nat \<Rightarrow> proc"
  and parse_if :: "variant \<Rightarrow> nat \<Rightarrow> proc"
  and parse_while :: "variant \<Rightarrow> nat \<Rightarrow> proc"
  and parse_for :: "variant \<Rightarrow> nat \<Rightarrow> proc"
where
  "parse_statement_list var 0 = OutOfFuel"
| "parse_statement_list var (Suc n) =
     peek (\<lambda>(kind, value).
       if kind \<noteq> EOF \<and> kind \<noteq> RBRACE
       then steps [parse_statement var n, parse_statement_list var n]
       else Returned)"
| "parse_statement var 0 = OutOfFuel"
| "parse_statement var (Suc n) =
     peek (\<lambda>(kind, value).
       if kind = TYPE_KEYWORD then parse_declaration var n
       else if kind = ID then parse_assignment var n
       else if kind = CONTROL_KEYWORD then
         (if value = ''referee'' then parse_if var n
          else if value = ''practice'' then parse_while var n
          else if value = ''drill'' then parse_for var n
          else if value = ''bench'' then Returned
          else error (''Unknown control keyword '' @ quoted value) (Some (kind, value)))
       else if kind = OUTPUT_KEYWORD then parse_output var n
       else if kind = INPUT_KEYWORD then parse_input
       else if kind = FUNCTION_KEYWORD \<and> value = ''whistle'' then parse_return var n
       else error (''Unexpected statement start: '' @ value) (Some (kind, value)))"
| "parse_if var 0 = OutOfFuel"
| "parse_if var (Suc n) =
     steps [match CONTROL_KEYWORD (Some ''referee''),
            match LPAREN None,
            parse_condition var n,
            match RPAREN None,
            match LBRACE None,
            parse_statement_list var n,
            match RBRACE None,
            peek (\<lambda>(kind, value).
              if value = ''bench''
              then steps [match CONTROL_KEYWORD (Some ''bench''),
                          match LBRACE None,
                          parse_statement_list var n,
                          match RBRACE None]
              else Returned),
            log (Parsed If_statement)]"
| "parse_while var 0 = OutOfFuel"
| "parse_while var (Suc n) =
     steps [match CONTROL_KEYWORD (Some ''practice''),
            match LPAREN None,
            parse_condition var n,
            match RPAREN None,
            match LBRACE None,
            parse_statement_list var n,
            match RBRACE None,
            log (Parsed While)]"
| "parse_for var 0 = OutOfFuel"
| "parse_for var (Suc n) =
     steps [match CONTROL_KEYWORD (Some ''drill''),
            match LPAREN None,
            peek (\<lambda>(kind, value).
              if kind = TYPE_KEYWORD then parse_declaration_in_for var n
              else if kind = ID then parse_assignment_in_for var n
              else Returned),
            match END None,
            peek (\<lambda>(kind, value).
              if kind \<noteq> END then parse_condition var n else Returned),
            match END None,
            peek (\<lambda>(kind, value).
              if kind = ID then parse_assignment_in_for var n else Returned),
            match RPAREN None,
            match LBRACE None,
            parse_statement_list var n,
            match RBRACE None,
            log (Parsed For)]"

subsection \<open>Functions and the program\<close>

fun parse_param_list_while :: "nat \<Rightarrow> proc" where
  "parse_param_list_while 0 = OutOfFuel"
| "parse_param_list_while (Suc n) =
     peek (\<lambda>(kind, value).
       if kind = COMMA
       then steps [match COMMA None, match TYPE_KEYWORD None, match ID None,
                   parse_param_list_while n]
       else Returned)"

definition parse_param_list :: "nat \<Rightarrow> proc" where
  "parse_param_list n =
     peek (\<lambda>(kind, value).
       if kind = TYPE_KEYWORD
       then steps [match TYPE_KEYWORD None, match ID None, parse_param_list_while n]
       else Returned)"

text \<open>
  The name of the function: \<^verbatim>\<open>self.match("ID")\<close> in \<^verbatim>\<open>cr7_compiler.py\<close>; in
  \<^verbatim>\<open>cr7_gui.py\<close> the cursor moves on when the token is an \<^verbatim>\<open>ID\<close> or a
  \<^verbatim>\<open>FUNCTION_KEYWORD\<close>.
\<close>

fun parse_function_name :: "variant \<Rightarrow> proc" where
  "parse_function_name Compiler = match ID None"
| "parse_function_name Gui =
     peek (\<lambda>(kind, value).
       if kind = ID \<or> kind = FUNCTION_KEYWORD then advance
       else error (''Expected function name after '' @ quoted ''play'') None)"

definition parse_function :: "variant \<Rightarrow> nat \<Rightarrow> proc" where
  "parse_function var n =
     steps [match FUNCTION_KEYWORD (Some ''play''),
            parse_function_name var,
            match LPAREN None,
            parse_param_list n,
            match RPAREN None,
            match LBRACE None,
            parse_statement_list var n,
            match RBRACE None,
            log (Parsed Function)]"

definition parse_meta :: proc where
  "parse_meta =
     steps [match META_KEYWORD (Some ''#import''),
            peek (\<lambda>(kind, value).
              if value = ''stadium'' then match META_KEYWORD (Some ''stadium'')
              else error ''Expected 'stadium' after #import'' None),
            log (Parsed Meta_statement)]"

fun parse_program_while :: "variant \<Rightarrow> nat \<Rightarrow> proc" where
  "parse_program_while var 0 = OutOfFuel"
| "parse_program_while var (Suc n) =
     peek (\<lambda>(kind, value).
       if kind \<noteq> EOF
       then steps [if kind = META_KEYWORD then parse_meta
                   else if kind = FUNCTION_KEYWORD then parse_function var n
                   else error (''Unexpected statement start: '' @ value) None,
                   parse_program_while var n]
       else Returned)"

text \<open>
  \<^verbatim>\<open>parse_program\<close>. The message box that \<^verbatim>\<open>cr7_gui.py\<close> opens after the last line is
  presentation and is left out.
\<close>

definition parse_program :: "variant \<Rightarrow> nat \<Rightarrow> proc" where
  "parse_program var n = steps [log Starting, parse_program_while var n, log Completed]"

section \<open>Notions used in the statements\<close>

subsection \<open>Runs of the recognizer\<close>

text \<open>
  \<open>prepend l s\<close> is the state \<open>s\<close> with the lines \<open>l\<close> already on the display before the
  lines of \<open>s\<close>; \<open>map_outcome\<close> changes the state a result carries.
\<close>

definition prepend :: "entry list \<Rightarrow> parser \<Rightarrow> parser" where
  "prepend l s = s\<lparr>out := l @ out s\<rparr>"

fun map_outcome :: "(parser \<Rightarrow> parser) \<Rightarrow> outcome \<Rightarrow> outcome" where
  "map_outcome f (Returned s) = Returned (f s)"
| "map_outcome f (SystemExit s) = SystemExit (f s)"
| "map_outcome f (IndexError s) = IndexError (f s)"
| "map_outcome f (OutOfFuel s) = OutOfFuel (f s)"

text \<open>
  What one run reports: its result, with only the lines the run itself has written
  (\<open>output_box\<close> held the display's lines before the run).
\<close>

definition report :: "entry list \<Rightarrow> outcome \<Rightarrow> outcome" where
  "report output_box r =
     map_outcome (\<lambda>s. s\<lparr>out := drop (length output_box) (out s)\<rparr>) r"

text \<open>The cursor points into the token list, and the list ends with the \<open>EOF\<close> token.\<close>

definition in_bounds :: "parser \<Rightarrow> bool" where
  "in_bounds s = (pos s < length (tokens s) \<and> fst (last (tokens s)) = EOF)"

text \<open>
  What every method of the recognizer does, from every state: it leaves the token list
  alone; it does not move the cursor back; on the \<open>EOF\<close> token it does not move the
  cursor at all; it keeps the cursor inside a list that ends with \<open>EOF\<close>, and then
  never reads past the end; and what it does is the same whatever the display already
  shows.
\<close>

definition behaves_at :: "proc \<Rightarrow> parser \<Rightarrow> bool" where
  "behaves_at m s =
     (tokens (state_of (m s)) = tokens s
      \<and> pos s \<le> pos (state_of (m s))
      \<and> (\<forall>v. current_token s = Some (EOF, v) \<longrightarrow> pos (state_of (m s)) = pos s)
      \<and> (in_bounds s \<longrightarrow> in_bounds (state_of (m s)) \<and> \<not> is_IndexError (m s))
      \<and> (\<forall>l. m (prepend l s) = map_outcome (prepend l) (m s)))"

definition well_behaved :: "proc \<Rightarrow> bool" where
  "well_behaved m = (\<forall>s. behaves_at m s)"

text \<open>\<open>below f g\<close>: wherever \<open>f\<close> has come back, \<open>g\<close> comes back with the same result.\<close>

definition below :: "proc \<Rightarrow> proc \<Rightarrow> bool" where
  "below f g = (\<forall>s. \<not> is_OutOfFuel (f s) \<longrightarrow> g s = f s)"

subsection \<open>Texts and token shapes\<close>

text \<open>The matches that \<^verbatim>\<open>tokenize\<close> drops, and what their texts look like.\<close>

definition discarded :: "kind \<Rightarrow> bool" where
  "discarded k = (k = COMMENT \<or> k = SKIP \<or> k = NEWLINE)"


text \<open>
  A text that holds only blanks (the space and the tab, the class of \<^verbatim>\<open>SKIP\<close>),
  newlines (\<^verbatim>\<open>\n\<close>) and line comments, read from the left: a comment starts with
  \<^verbatim>\<open>//\<close> and runs to the end of its line.
\<close>

function only_whitespace_and_comments :: "string \<Rightarrow> bool" where
  "only_whitespace_and_comments [] = True"
| "only_whitespace_and_comments (c # cs) =
     (if is_blank c \<or> c = newline then only_whitespace_and_comments cs
      else if c = CHR ''/'' \<and> take 1 cs = ''/''
      then only_whitespace_and_comments (dropWhile (\<lambda>x. x \<noteq> newline) cs)
      else False)"
  by pat_completeness auto
termination
  by (relation "measure length") (auto simp: le_imp_less_Suc length_dropWhile_le)

text \<open>
  The spec's words "only whitespace characters, newlines, and line comments", taken
  literally: a whitespace character is any character that Python's \<^verbatim>\<open>str.isspace\<close>
  accepts; below 256 these are the code points 9 to 13, 28 to 32, 133 and 160.
\<close>

definition is_whitespace :: "char \<Rightarrow> bool" where
  "is_whitespace c =
     ((of_char c :: nat) \<in> {9, 10, 11, 12, 13, 28, 29, 30, 31, 32, 133, 160})"

function whitespace_characters_and_comments_only :: "string \<Rightarrow> bool" where
  "whitespace_characters_and_comments_only [] = True"
| "whitespace_characters_and_comments_only (c # cs) =
     (if is_whitespace c then whitespace_characters_and_comments_only cs
      else if c = CHR ''/'' \<and> take 1 cs = ''/''
      then whitespace_characters_and_comments_only (dropWhile (\<lambda>x. x \<noteq> newline) cs)
      else False)"
  by pat_completeness auto
termination
  by (relation "measure length") (auto simp: le_imp_less_Suc length_dropWhile_le)





text \<open>All the methods that recognize a part of the grammar, at a given depth.\<close>

definition grammar_procedures :: "variant \<Rightarrow> nat \<Rightarrow> proc list" where
  "grammar_procedures var n =
     [parse_program var n, parse_program_while var n, parse_meta,
      parse_function var n, parse_function_name var,
      parse_param_list n, parse_param_list_while n,
      parse_statement_list var n, parse_statement var n,
      parse_declaration var n, parse_assignment var n,
      parse_if var n, parse_while var n, parse_for var n,
      parse_declaration_in_for var n, parse_assignment_in_for var n,
      parse_output var n, parse_input, parse_return var n,
      parse_condition var n,
      parse_expr var n, parse_expr_while var n,
      parse_term var n, parse_term_while var n,
      parse_factor var n, parse_factor_while var n]"

subsection \<open>The token lists of the scenarios\<close>

text \<open>\<^verbatim>\<open>play main() { x = ; }\<close>\<close>

definition scenario_C :: "token list" where
  "scenario_C =
     [(FUNCTION_KEYWORD, ''play''), (ID, ''main''), (LPAREN, ''(''), (RPAREN, '')''),
      (LBRACE, ''{''), (ID, ''x''), (ASSIGN, ''=''), (END, '';''), (RBRACE, ''}''),
      (EOF, [])]"

text \<open>\<^verbatim>\<open>play main() { announce add(1,2); }\<close>\<close>

definition scenario_E :: "token list" where
  "scenario_E =
     [(FUNCTION_KEYWORD, ''play''), (ID, ''main''), (LPAREN, ''(''), (RPAREN, '')''),
      (LBRACE, ''{''), (OUTPUT_KEYWORD, ''announce''), (ID, ''add''), (LPAREN, ''(''),
      (NUMBER, ''1''), (COMMA, '',''), (NUMBER, ''2''), (RPAREN, '')''), (END, '';''),
      (RBRACE, ''}''), (EOF, [])]"

text \<open>\<^verbatim>\<open>play main() { bench }\<close>\<close>

definition scenario_bench :: "token list" where
  "scenario_bench =
     [(FUNCTION_KEYWORD, ''play''), (ID, ''main''), (LPAREN, ''(''), (RPAREN, '')''),
      (LBRACE, ''{''), (CONTROL_KEYWORD, ''bench''), (RBRACE, ''}''), (EOF, [])]"

text \<open>\<^verbatim>\<open>play main() { referee (a == b) { } }\<close>\<close>

definition scenario_equality :: "token list" where
  "scenario_equality =
     [(FUNCTION_KEYWORD, ''play''), (ID, ''main''), (LPAREN, ''(''), (RPAREN, '')''),
      (LBRACE, ''{''), (CONTROL_KEYWORD, ''referee''), (LPAREN, ''(''), (ID, ''a''),
      (ASSIGN, ''=''), (ASSIGN, ''=''), (ID, ''b''), (RPAREN, '')''), (LBRACE, ''{''),
      (RBRACE, ''}''), (RBRACE, ''}''), (EOF, [])]"



section \<open>The recognizer's methods are well behaved\<close>

lemma current_token_prepend [simp]: "current_token (prepend l s) = current_token s"
  by (simp add: current_token_def prepend_def)

lemma lookahead_prepend [simp]: "lookahead (prepend l s) n = lookahead s n"
  by (simp add: lookahead_def prepend_def)

lemma wb_Returned: "well_behaved Returned"
  by (simp add: well_behaved_def behaves_at_def)

lemma wb_OutOfFuel: "well_behaved OutOfFuel"
  by (simp add: well_behaved_def behaves_at_def)

lemma wb_log: "well_behaved (log e)"
  by (simp add: well_behaved_def behaves_at_def log_def prepend_def in_bounds_def)

lemma in_bounds_current: "in_bounds s \<Longrightarrow> current_token s \<noteq> None"
  by (simp add: in_bounds_def current_token_def)

lemma wb_peek:
  assumes "\<And>t. well_behaved (body t)"
  shows "well_behaved (peek body)"
  unfolding well_behaved_def
proof (intro allI)
  fix s
  show "behaves_at (peek body) s"
  proof (cases "current_token s")
    case None
    then show ?thesis
      using in_bounds_current[of s] by (auto simp: peek_def behaves_at_def)
  next
    case (Some t)
    with assms[of t] show ?thesis
      by (auto simp: peek_def well_behaved_def behaves_at_def)
  qed
qed

lemma wb_error: "well_behaved (error msg actual)"
proof (cases actual)
  case None
  have "error msg None = peek (\<lambda>(actual_kind, actual_value) self.
       SystemExit (self\<lparr>out := out self @ [Syntax_Error msg actual_value actual_kind]\<rparr>))"
    by (rule ext) simp
  moreover have "well_behaved \<dots>"
    by (rule wb_peek)
       (auto simp: well_behaved_def behaves_at_def prepend_def in_bounds_def)
  ultimately show ?thesis using None by simp
next
  case (Some t)
  then show ?thesis
    by (cases t) (simp add: well_behaved_def behaves_at_def prepend_def in_bounds_def)
qed

text \<open>The cursor moves on only from a token that is not the last one.\<close>

lemma advance_in_bounds:
  assumes "in_bounds s" and "current_token s = Some (k, v)" and "k \<noteq> EOF"
  shows "in_bounds (s\<lparr>pos := pos s + 1\<rparr>)"
proof -
  from assms(1) have len: "pos s < length (tokens s)" and eof: "fst (last (tokens s)) = EOF"
    by (simp_all add: in_bounds_def)
  from assms(2) len have cur: "tokens s ! pos s = (k, v)"
    by (simp add: current_token_def)
  have "pos s \<noteq> length (tokens s) - 1"
  proof
    assume "pos s = length (tokens s) - 1"
    moreover from len have "tokens s \<noteq> []" by auto
    ultimately have "tokens s ! pos s = last (tokens s)"
      by (simp add: last_conv_nth)
    with cur eof assms(3) show False by simp
  qed
  with len eof show ?thesis by (simp add: in_bounds_def)
qed

lemma wb_advance_when:
  assumes "\<And>k v. ok (k, v) \<Longrightarrow> k \<noteq> EOF" and "\<And>t. well_behaved (other t)"
  shows "well_behaved (peek (\<lambda>t. if ok t then advance else other t))"
  unfolding well_behaved_def
proof (intro allI)
  fix s
  let ?m = "peek (\<lambda>t. if ok t then advance else other t)"
  show "behaves_at ?m s"
  proof (cases "current_token s")
    case None
    then show ?thesis
      using in_bounds_current[of s] by (auto simp: peek_def behaves_at_def)
  next
    case (Some t)
    show ?thesis
    proof (cases "ok t")
      case True
      obtain k v where t: "t = (k, v)" by (cases t)
      with True assms(1) have k: "k \<noteq> EOF" by blast
      with Some t have "in_bounds s \<Longrightarrow> in_bounds (s\<lparr>pos := pos s + 1\<rparr>)"
        using advance_in_bounds[of s k v] by simp
      moreover have "?m (prepend l s) = map_outcome (prepend l) (?m s)" for l
        using Some True by (simp add: peek_def) (simp add: advance_def prepend_def)
      ultimately show ?thesis
        using Some True t k by (simp add: peek_def advance_def behaves_at_def)
    next
      case False
      with Some assms(2)[of t] show ?thesis
        by (auto simp: peek_def well_behaved_def behaves_at_def)
    qed
  qed
qed

lemma wb_match: "expected_type \<noteq> EOF \<Longrightarrow> well_behaved (match expected_type expected_value)"
proof -
  assume ne: "expected_type \<noteq> EOF"
  let ?msg = "''Expected '' @ kind_name expected_type
                   @ (case expected_value of
                        None \<Rightarrow> []
                      | Some v \<Rightarrow> if v = [] then [] else ''('' @ quoted v @ '')'')"
  have "match expected_type expected_value =
     peek (\<lambda>t. if fst t = expected_type \<and> (expected_value = None \<or> Some (snd t) = expected_value)
       then advance else error ?msg (Some t))"
    unfolding match_def by (rule arg_cong[of _ _ peek]) (auto simp: fun_eq_iff)
  moreover have "well_behaved \<dots>"
    using ne by (intro wb_advance_when wb_error) auto
  ultimately show ?thesis by simp
qed

lemma behaves_at_then:
  assumes m: "behaves_at m s" and ret: "m s = Returned s'" and rest: "behaves_at (steps ms) s'"
  shows "behaves_at (steps (m # ms)) s"
proof -
  from m ret have 1: "tokens s' = tokens s" "pos s \<le> pos s'"
    "\<And>v. current_token s = Some (EOF, v) \<Longrightarrow> pos s' = pos s"
    "in_bounds s \<Longrightarrow> in_bounds s'" "\<And>l. m (prepend l s) = Returned (prepend l s')"
    by (simp_all add: behaves_at_def)
  from 1(1,3) have 3: "current_token s' = Some (EOF, v)" if "current_token s = Some (EOF, v)" for v
    using that by (auto simp: current_token_def split: if_splits)
  from rest have 2: "tokens (state_of (steps ms s')) = tokens s'"
    "pos s' \<le> pos (state_of (steps ms s'))"
    "\<And>v. current_token s' = Some (EOF, v) \<Longrightarrow> pos (state_of (steps ms s')) = pos s'"
    "in_bounds s' \<Longrightarrow> in_bounds (state_of (steps ms s')) \<and> \<not> is_IndexError (steps ms s')"
    "\<And>l. steps ms (prepend l s') = map_outcome (prepend l) (steps ms s')"
    by (simp_all add: behaves_at_def)
  have "pos (state_of (steps ms s')) = pos s" if "current_token s = Some (EOF, v)" for v
    using 1(3)[OF that] 2(3)[OF 3[OF that]] by simp
  with ret 1 2 show ?thesis
    unfolding behaves_at_def by auto
qed

lemma wb_steps: "list_all well_behaved ms \<Longrightarrow> well_behaved (steps ms)"
proof (induction ms)
  case Nil
  have "steps [] = Returned" by (rule ext) simp
  then show ?case by (simp add: wb_Returned)
next
  case (Cons m ms)
  then have m: "well_behaved m" and ms: "well_behaved (steps ms)" by simp_all
  show ?case
    unfolding well_behaved_def
  proof (intro allI)
    fix s
    from m have ms': "behaves_at m s" by (simp add: well_behaved_def)
    show "behaves_at (steps (m # ms)) s"
    proof (cases "m s")
      case (Returned s')
      from ms have "behaves_at (steps ms) s'" by (simp add: well_behaved_def)
      with ms' Returned show ?thesis by (rule behaves_at_then)
    next
      case (SystemExit s')
      with ms' show ?thesis by (simp add: behaves_at_def)
    next
      case (IndexError s')
      with ms' show ?thesis by (simp add: behaves_at_def)
    next
      case (OutOfFuel s')
      with ms' show ?thesis by (simp add: behaves_at_def)
    qed
  qed
qed

lemma wb_cond:
  assumes "\<And>s l. c (prepend l s) = c s" and "well_behaved f" and "well_behaved g"
  shows "well_behaved (\<lambda>s. if c s then f s else g s)"
  using assms by (simp add: well_behaved_def behaves_at_def)

lemmas wb_intros = wb_steps wb_peek wb_match wb_log wb_error wb_Returned wb_OutOfFuel wb_cond

lemma wb_expr:
  "well_behaved (parse_expr var n) \<and> well_behaved (parse_expr_while var n)
   \<and> well_behaved (parse_term var n) \<and> well_behaved (parse_term_while var n)
   \<and> well_behaved (parse_factor var n) \<and> well_behaved (parse_factor_while var n)"
proof (induction n)
  case 0
  show ?case by (simp add: wb_OutOfFuel)
next
  case (Suc n)
  have 1: "well_behaved (parse_expr var (Suc n))"
    using Suc by (auto intro!: wb_intros)
  have 2: "well_behaved (parse_expr_while var (Suc n))"
    using Suc by (auto intro!: wb_intros)
  have 3: "well_behaved (parse_term var (Suc n))"
    using Suc by (auto intro!: wb_intros)
  have 4: "well_behaved (parse_term_while var (Suc n))"
    using Suc by (auto intro!: wb_intros)
  have 5: "well_behaved (parse_factor var (Suc n))"
    using Suc by (cases var) (auto intro!: wb_intros)
  have 6: "well_behaved (parse_factor_while var (Suc n))"
    using Suc by (auto intro!: wb_intros)
  from 1 2 3 4 5 6 show ?case by blast
qed

lemma wb_parse_expr: "well_behaved (parse_expr var n)"
  using wb_expr by blast

lemma wb_simple:
  "well_behaved (parse_condition var n)"
  "well_behaved (parse_declaration var n)"
  "well_behaved (parse_assignment var n)"
  "well_behaved (parse_declaration_in_for var n)"
  "well_behaved (parse_assignment_in_for var n)"
  "well_behaved (parse_output var n)"
  "well_behaved parse_input"
  "well_behaved (parse_return var n)"
  "well_behaved parse_meta"
  unfolding parse_condition_def parse_declaration_def parse_assignment_def
    parse_declaration_in_for_def parse_assignment_in_for_def parse_output_def
    parse_input_def parse_return_def parse_meta_def
  by (auto intro!: wb_intros wb_parse_expr)

lemma wb_stmt:
  "well_behaved (parse_statement_list var n) \<and> well_behaved (parse_statement var n)
   \<and> well_behaved (parse_if var n) \<and> well_behaved (parse_while var n)
   \<and> well_behaved (parse_for var n)"
proof (induction n)
  case 0
  show ?case by (simp add: wb_OutOfFuel)
next
  case (Suc n)
  have 1: "well_behaved (parse_statement_list var (Suc n))"
    using Suc by (auto intro!: wb_intros)
  have 2: "well_behaved (parse_statement var (Suc n))"
    using Suc by (auto intro!: wb_intros wb_simple)
  have 3: "well_behaved (parse_if var (Suc n))"
    using Suc by (auto intro!: wb_intros wb_simple)
  have 4: "well_behaved (parse_while var (Suc n))"
    using Suc by (auto intro!: wb_intros wb_simple)
  have 5: "well_behaved (parse_for var (Suc n))"
    using Suc by (auto intro!: wb_intros wb_simple)
  from 1 2 3 4 5 show ?case by blast
qed

lemma wb_parse_param_list_while: "well_behaved (parse_param_list_while n)"
  by (induction n) (auto intro!: wb_intros)

lemma wb_parse_param_list: "well_behaved (parse_param_list n)"
  unfolding parse_param_list_def by (auto intro!: wb_intros wb_parse_param_list_while)

lemma wb_parse_function_name: "well_behaved (parse_function_name var)"
proof (cases var)
  case Compiler
  then show ?thesis by (simp add: wb_match)
next
  case Gui
  have "parse_function_name Gui =
     peek (\<lambda>t. if fst t = ID \<or> fst t = FUNCTION_KEYWORD then advance
       else error (''Expected function name after '' @ quoted ''play'') None)"
    unfolding parse_function_name.simps
    by (rule arg_cong[of _ _ peek]) (auto simp: fun_eq_iff)
  moreover have "well_behaved \<dots>"
    by (intro wb_advance_when wb_error) auto
  ultimately show ?thesis using Gui by simp
qed

lemma wb_parse_function: "well_behaved (parse_function var n)"
  unfolding parse_function_def
  using wb_stmt[of var n]
  by (auto intro!: wb_intros wb_parse_function_name wb_parse_param_list)

lemma wb_parse_program_while: "well_behaved (parse_program_while var n)"
  by (induction n) (auto intro!: wb_intros wb_parse_function wb_simple)

lemma wb_parse_program: "well_behaved (parse_program var n)"
  unfolding parse_program_def by (auto intro!: wb_intros wb_parse_program_while)


section \<open>More depth never changes a result\<close>

lemma below_refl: "below f f"
  by (simp add: below_def)

lemma below_OutOfFuel: "below OutOfFuel g"
  by (simp add: below_def)

lemma below_peek: "(\<And>t. below (f t) (g t)) \<Longrightarrow> below (peek f) (peek g)"
  by (auto simp: below_def peek_def split: option.splits)

lemma below_steps: "list_all2 below fs gs \<Longrightarrow> below (steps fs) (steps gs)"
proof (induction fs gs rule: list_all2_induct)
  case Nil
  show ?case by (rule below_refl)
next
  case (Cons f fs g gs)
  show ?case
    unfolding below_def
  proof (intro allI impI)
    fix s
    assume fin: "\<not> is_OutOfFuel (steps (f # fs) s)"
    then have "\<not> is_OutOfFuel (f s)"
      by (cases "f s") auto
    with Cons.hyps(1) have eq: "g s = f s"
      by (simp add: below_def)
    show "steps (g # gs) s = steps (f # fs) s"
    proof (cases "f s")
      case (Returned s')
      with fin have "\<not> is_OutOfFuel (steps fs s')" by simp
      with Cons.IH have "steps gs s' = steps fs s'" by (simp add: below_def)
      with Returned eq show ?thesis by simp
    qed (use eq in simp_all)
  qed
qed

lemma below_cond:
  "below f f' \<Longrightarrow> below g g' \<Longrightarrow>
   below (\<lambda>s. if c s then f s else g s) (\<lambda>s. if c s then f' s else g' s)"
  by (simp add: below_def)

lemmas below_intros = below_steps below_peek below_cond below_refl below_OutOfFuel

lemma below_expr:
  "below (parse_expr var n) (parse_expr var (n + k))
   \<and> below (parse_expr_while var n) (parse_expr_while var (n + k))
   \<and> below (parse_term var n) (parse_term var (n + k))
   \<and> below (parse_term_while var n) (parse_term_while var (n + k))
   \<and> below (parse_factor var n) (parse_factor var (n + k))
   \<and> below (parse_factor_while var n) (parse_factor_while var (n + k))"
proof (induction n)
  case 0
  show ?case by (simp add: below_OutOfFuel)
next
  case (Suc n)
  have 1: "below (parse_expr var (Suc n)) (parse_expr var (Suc n + k))"
    using Suc by (auto intro!: below_intros)
  have 2: "below (parse_expr_while var (Suc n)) (parse_expr_while var (Suc n + k))"
    using Suc by (auto intro!: below_intros)
  have 3: "below (parse_term var (Suc n)) (parse_term var (Suc n + k))"
    using Suc by (auto intro!: below_intros)
  have 4: "below (parse_term_while var (Suc n)) (parse_term_while var (Suc n + k))"
    using Suc by (auto intro!: below_intros)
  have 5: "below (parse_factor var (Suc n)) (parse_factor var (Suc n + k))"
    using Suc by (cases var) (auto intro!: below_intros)
  have 6: "below (parse_factor_while var (Suc n)) (parse_factor_while var (Suc n + k))"
    using Suc by (auto intro!: below_intros)
  from 1 2 3 4 5 6 show ?case by blast
qed

lemma below_parse_expr: "below (parse_expr var n) (parse_expr var (n + k))"
  using below_expr by blast

lemma below_simple:
  "below (parse_condition var n) (parse_condition var (n + k))"
  "below (parse_declaration var n) (parse_declaration var (n + k))"
  "below (parse_assignment var n) (parse_assignment var (n + k))"
  "below (parse_declaration_in_for var n) (parse_declaration_in_for var (n + k))"
  "below (parse_assignment_in_for var n) (parse_assignment_in_for var (n + k))"
  "below (parse_output var n) (parse_output var (n + k))"
  "below (parse_return var n) (parse_return var (n + k))"
  unfolding parse_condition_def parse_declaration_def parse_assignment_def
    parse_declaration_in_for_def parse_assignment_in_for_def parse_output_def
    parse_return_def
  by (auto intro!: below_intros below_parse_expr)

lemma below_stmt:
  "below (parse_statement_list var n) (parse_statement_list var (n + k))
   \<and> below (parse_statement var n) (parse_statement var (n + k))
   \<and> below (parse_if var n) (parse_if var (n + k))
   \<and> below (parse_while var n) (parse_while var (n + k))
   \<and> below (parse_for var n) (parse_for var (n + k))"
proof (induction n)
  case 0
  show ?case by (simp add: below_OutOfFuel)
next
  case (Suc n)
  have 1: "below (parse_statement_list var (Suc n)) (parse_statement_list var (Suc n + k))"
    using Suc by (auto intro!: below_intros)
  have 2: "below (parse_statement var (Suc n)) (parse_statement var (Suc n + k))"
    using Suc by (auto intro!: below_intros below_simple)
  have 3: "below (parse_if var (Suc n)) (parse_if var (Suc n + k))"
    using Suc by (auto intro!: below_intros below_simple)
  have 4: "below (parse_while var (Suc n)) (parse_while var (Suc n + k))"
    using Suc by (auto intro!: below_intros below_simple)
  have 5: "below (parse_for var (Suc n)) (parse_for var (Suc n + k))"
    using Suc by (auto intro!: below_intros below_simple)
  from 1 2 3 4 5 show ?case by blast
qed

lemma below_parse_statement_list:
  "below (parse_statement_list var n) (parse_statement_list var (n + k))"
  using below_stmt by blast

lemma below_parse_param_list_while:
  "below (parse_param_list_while n) (parse_param_list_while (n + k))"
  by (induction n) (auto intro!: below_intros)

lemma below_parse_param_list: "below (parse_param_list n) (parse_param_list (n + k))"
  unfolding parse_param_list_def by (auto intro!: below_intros below_parse_param_list_while)

lemma below_parse_function: "below (parse_function var n) (parse_function var (n + k))"
  unfolding parse_function_def
  by (auto intro!: below_intros below_parse_param_list below_parse_statement_list)

lemma below_parse_program_while:
  "below (parse_program_while var n) (parse_program_while var (n + k))"
  by (induction n) (auto intro!: below_intros below_parse_function)

lemma below_parse_program: "below (parse_program var n) (parse_program var (n + k))"
  unfolding parse_program_def by (auto intro!: below_intros below_parse_program_while)



section \<open>Runs on given texts\<close>

lemma steps_append:
  "steps (ms @ ms') s = (case steps ms s of Returned s' \<Rightarrow> steps ms' s' | other \<Rightarrow> other)"
  by (induction ms arbitrary: s) (auto split: outcome.splits)

lemma prepend_CR7Parser: "prepend output_box (CR7Parser toks []) = CR7Parser toks output_box"
  by (simp add: prepend_def CR7Parser_def)

text \<open>
  A run that has come back with some depth comes back with the same result with any
  greater depth, and on any display.
\<close>

lemma parse_program_settled:
  assumes "parse_program var n (CR7Parser toks []) = r" and "\<not> is_OutOfFuel r"
  shows "parse_program var (n + k) (CR7Parser toks output_box)
           = map_outcome (prepend output_box) r"
proof -
  from assms below_parse_program[of var n k]
  have "parse_program var (n + k) (CR7Parser toks []) = r"
    by (simp add: below_def)
  moreover from wb_parse_program[of var "n + k"]
  have "parse_program var (n + k) (prepend output_box (CR7Parser toks []))
      = map_outcome (prepend output_box) (parse_program var (n + k) (CR7Parser toks []))"
    by (simp add: well_behaved_def behaves_at_def)
  ultimately show ?thesis by (simp add: prepend_CR7Parser)
qed

subsection \<open>The operator spellings\<close>

lemma scenario_equality_tokens:
  "tokenize var ''play main() { referee (a == b) { } }'' = Inr scenario_equality"
  by (cases var; hypsubst; code_simp)

lemma scenario_equality_run:
  "parse_program var 8 (CR7Parser scenario_equality []) =
     SystemExit \<lparr>tokens = scenario_equality, pos = 8,
       out = [Starting,
              Syntax_Error ''Expected relational operator in condition'' ''='' ASSIGN]\<rparr>"
  by (cases var; hypsubst; code_simp)

text \<open>
  C1. The spec has each of \<^verbatim>\<open>==\<close>, \<^verbatim>\<open>!=\<close>, \<^verbatim>\<open>++\<close>, \<^verbatim>\<open>--\<close> scanned as one operator
  token. The scanner does so for \<^verbatim>\<open>!=\<close>, \<^verbatim>\<open>++\<close> and \<^verbatim>\<open>--\<close>. For \<^verbatim>\<open>==\<close> it gives two
  \<open>ASSIGN\<close> tokens: the alternative \<^verbatim>\<open>=\<close> stands before the operator class in
  \<^verbatim>\<open>token_specification\<close> and wins at each of the two characters. A condition written with
  \<^verbatim>\<open>==\<close> is then rejected by the recognizer, at the first \<^verbatim>\<open>=\<close>, for want of a relational
  operator.
\<close>

theorem equality_is_two_assign_tokens:
  "tokenize var ''=='' = Inr [(ASSIGN, ''=''), (ASSIGN, ''=''), (EOF, [])]
   \<and> tokenize var ''!='' = Inr [(OP, ''!=''), (EOF, [])]
   \<and> tokenize var ''++'' = Inr [(OP, ''++''), (EOF, [])]
   \<and> tokenize var ''--'' = Inr [(OP, ''--''), (EOF, [])]
   \<and> tokenize var ''play main() { referee (a == b) { } }'' = Inr scenario_equality
   \<and> (\<forall>k output_box.
        parse_program var (8 + k) (CR7Parser scenario_equality output_box) =
          SystemExit \<lparr>tokens = scenario_equality, pos = 8,
            out = output_box @ [Starting,
              Syntax_Error ''Expected relational operator in condition'' ''='' ASSIGN]\<rparr>)"
proof -
  have "tokenize var ''=='' = Inr [(ASSIGN, ''=''), (ASSIGN, ''=''), (EOF, [])]"
    by (cases var; hypsubst; code_simp)
  moreover have "tokenize var ''!='' = Inr [(OP, ''!=''), (EOF, [])]"
    by (cases var; hypsubst; code_simp)
  moreover have "tokenize var ''++'' = Inr [(OP, ''++''), (EOF, [])]"
    by (cases var; hypsubst; code_simp)
  moreover have "tokenize var ''--'' = Inr [(OP, ''--''), (EOF, [])]"
    by (cases var; hypsubst; code_simp)
  moreover have "parse_program var (8 + k) (CR7Parser scenario_equality output_box) =
          SystemExit \<lparr>tokens = scenario_equality, pos = 8,
            out = output_box @ [Starting,
              Syntax_Error ''Expected relational operator in condition'' ''='' ASSIGN]\<rparr>"
    for k output_box
    using parse_program_settled[OF scenario_equality_run, of var k output_box]
    by (simp add: prepend_def)
  ultimately show ?thesis
    using scenario_equality_tokens by blast
qed

subsection \<open>A bare \<^verbatim>\<open>bench\<close>\<close>

text \<open>
  At a \<^verbatim>\<open>bench\<close> token \<^verbatim>\<open>parse_statement\<close> returns without moving the cursor, and the
  loop of \<^verbatim>\<open>parse_statement_list\<close> tests the same token again: whatever the depth, the
  loop has not come back.
\<close>

lemma bench_loops:
  "current_token s = Some (CONTROL_KEYWORD, ''bench'')
   \<Longrightarrow> parse_statement_list var n s = OutOfFuel s"
proof (induction n)
  case 0
  show ?case by simp
next
  case (Suc n)
  have "parse_statement var n s = OutOfFuel s \<or> parse_statement var n s = Returned s"
    using Suc.prems by (cases n) (simp_all add: peek_def)
  with Suc show ?case
    by (auto simp: peek_def)
qed

lemma scenario_bench_tokens: "tokenize var ''play main() { bench }'' = Inr scenario_bench"
  by (cases var; hypsubst; code_simp)

lemma bench_function:
  "parse_function var n \<lparr>tokens = scenario_bench, pos = 0, out = l\<rparr>
     = OutOfFuel \<lparr>tokens = scenario_bench, pos = 5, out = l\<rparr>"
proof -
  have 1: "steps [match FUNCTION_KEYWORD (Some ''play''), parse_function_name var,
      match LPAREN None, parse_param_list n, match RPAREN None, match LBRACE None]
      \<lparr>tokens = scenario_bench, pos = 0, out = l\<rparr>
     = Returned \<lparr>tokens = scenario_bench, pos = 5, out = l\<rparr>"
    by (cases var)
       (simp_all add: match_def peek_def current_token_def advance_def
          parse_param_list_def scenario_bench_def)
  have 2: "current_token \<lparr>tokens = scenario_bench, pos = 5, out = l\<rparr>
      = Some (CONTROL_KEYWORD, ''bench'')"
    by (simp add: current_token_def scenario_bench_def)
  have "parse_function var n =
      steps ([match FUNCTION_KEYWORD (Some ''play''), parse_function_name var,
        match LPAREN None, parse_param_list n, match RPAREN None, match LBRACE None]
        @ [parse_statement_list var n, match RBRACE None, log (Parsed Function)])"
    by (simp add: parse_function_def)
  then show ?thesis
    using bench_loops[OF 2, of var n] by (simp only: steps_append 1) simp
qed

text \<open>
  C2. The spec has a bare \<^verbatim>\<open>bench\<close> end the statement list of its block, so that
  recognition terminates. On \<^verbatim>\<open>play main() { bench }\<close> the recognizer never comes back:
  with every depth the run is still inside the loop of \<^verbatim>\<open>parse_statement_list\<close>, the
  cursor on the \<^verbatim>\<open>bench\<close> token, no diagnostic written.
\<close>

theorem bench_never_returns:
  "tokenize var ''play main() { bench }'' = Inr scenario_bench
   \<and> (\<forall>n output_box.
        is_OutOfFuel (parse_program var n (CR7Parser scenario_bench output_box)))
   \<and> (\<forall>n output_box.
        parse_program var (Suc n) (CR7Parser scenario_bench output_box) =
          OutOfFuel \<lparr>tokens = scenario_bench, pos = 5, out = output_box @ [Starting]\<rparr>)"
proof -
  have run: "parse_program var (Suc n) (CR7Parser scenario_bench output_box) =
          OutOfFuel \<lparr>tokens = scenario_bench, pos = 5, out = output_box @ [Starting]\<rparr>"
    for n output_box
  proof -
    have "current_token \<lparr>tokens = scenario_bench, pos = 0, out = output_box @ [Starting]\<rparr>
        = Some (FUNCTION_KEYWORD, ''play'')"
      by (simp add: current_token_def scenario_bench_def)
    then show ?thesis
      by (simp add: parse_program_def log_def CR7Parser_def peek_def bench_function)
  qed
  have "is_OutOfFuel (parse_program var n (CR7Parser scenario_bench output_box))"
    for n output_box
  proof (cases n)
    case 0
    then show ?thesis by (simp add: parse_program_def log_def)
  next
    case (Suc m)
    then show ?thesis by (simp add: run)
  qed
  with run scenario_bench_tokens show ?thesis by blast
qed

subsection \<open>Scenario C\<close>

lemma scenario_C_tokens: "tokenize var ''play main() { x = ; }'' = Inr scenario_C"
  by (cases var; hypsubst; code_simp)

lemma scenario_C_run:
  "parse_program var 8 (CR7Parser scenario_C []) =
     SystemExit \<lparr>tokens = scenario_C, pos = 7,
       out = [Starting, Syntax_Error ''Invalid factor'' '';'' END]\<rparr>"
  by (cases var; hypsubst; code_simp)

text \<open>
  C6. On \<^verbatim>\<open>play main() { x = ; }\<close> the recognizer, in either file and with every depth
  from 8 on, exits after one diagnostic: the message is \<^verbatim>\<open>Invalid factor\<close>, the category
  of the actual token is \<open>END\<close> (the statement terminator) and its lexeme is \<^verbatim>\<open>;\<close>. The
  run writes the starting line and the diagnostic, nothing else.
\<close>

theorem scenario_C_invalid_factor:
  "tokenize var ''play main() { x = ; }'' = Inr scenario_C
   \<and> (\<forall>k output_box.
        parse_program var (8 + k) (CR7Parser scenario_C output_box) =
          SystemExit \<lparr>tokens = scenario_C, pos = 7,
            out = output_box @ [Starting, Syntax_Error ''Invalid factor'' '';'' END]\<rparr>)"
  using parse_program_settled[OF scenario_C_run, of var]
  by (simp add: scenario_C_tokens prepend_def)

subsection \<open>Scenario E\<close>

lemma scenario_E_tokens:
  "tokenize var ''play main() { announce add(1,2); }'' = Inr scenario_E"
  by (cases var; hypsubst; code_simp)

lemma scenario_E_run:
  "parse_program Gui 12 (CR7Parser scenario_E []) =
     Returned \<lparr>tokens = scenario_E, pos = 14,
       out = [Starting, Parsed (Function_call ''add''), Parsed Output, Parsed Function,
              Completed]\<rparr>"
  by code_simp


text \<open>
  C3. On \<^verbatim>\<open>play main() { announce add(1,2); }\<close> the recognizer with call syntax (the one
  of \<^verbatim>\<open>cr7_gui.py\<close>) succeeds with every depth from 12 on, although \<^verbatim>\<open>add\<close> is declared
  nowhere, and it writes the line of the function call before the line of the output
  statement.
\<close>

theorem scenario_E_call_before_output:
  "tokenize Gui ''play main() { announce add(1,2); }'' = Inr scenario_E
   \<and> (\<forall>k output_box.
        parse_program Gui (12 + k) (CR7Parser scenario_E output_box) =
          Returned \<lparr>tokens = scenario_E, pos = 14,
            out = output_box @ [Starting, Parsed (Function_call ''add''), Parsed Output,
                                Parsed Function, Completed]\<rparr>)"
  using parse_program_settled[OF scenario_E_run]
  by (simp add: scenario_E_tokens prepend_def)

section \<open>The cursor\<close>

lemma wb_grammar_procedures: "m \<in> set (grammar_procedures var n) \<Longrightarrow> well_behaved m"
  using wb_expr[of var n] wb_stmt[of var n]
  by (auto simp: grammar_procedures_def wb_parse_program wb_parse_program_while wb_simple
       wb_parse_function wb_parse_function_name wb_parse_param_list
       wb_parse_param_list_while)

lemma match_cursor:
  "pos s \<le> pos (state_of (match expected_type expected_value s))"
  "match expected_type expected_value s = Returned s' \<Longrightarrow> pos s' = pos s + 1"
  by (auto simp: match_def peek_def advance_def split: option.splits if_splits)

lemma parse_function_name_cursor:
  "parse_function_name var s = Returned s' \<Longrightarrow> pos s' = pos s + 1"
  by (cases var)
     (auto simp: match_cursor peek_def advance_def split: option.splits if_splits)

text \<open>
  C9. No method of the recognizer moves the cursor to a smaller position: from every
  state, every grammar procedure (at every depth) and \<^verbatim>\<open>match\<close> end with the cursor
  where it was or further on. Where the cursor does move on, in \<^verbatim>\<open>match\<close> and at the
  name of a function, it moves by exactly one token.
\<close>

theorem cursor_never_moves_back:
  "(\<forall>m \<in> set (grammar_procedures var n). pos s \<le> pos (state_of (m s)))
   \<and> pos s \<le> pos (state_of (match expected_type expected_value s))
   \<and> (match expected_type expected_value s = Returned s' \<longrightarrow> pos s' = pos s + 1)
   \<and> (parse_function_name var s = Returned s' \<longrightarrow> pos s' = pos s + 1)"
proof -
  have "pos s \<le> pos (state_of (m s))" if "m \<in> set (grammar_procedures var n)" for m
    using wb_grammar_procedures[OF that] by (simp add: well_behaved_def behaves_at_def)
  then show ?thesis
    using match_cursor parse_function_name_cursor by blast
qed

theorem cursor_never_moves_back_witness:
  "pos (CR7Parser scenario_E []) \<le> pos (state_of (parse_program Gui 12 (CR7Parser scenario_E [])))
   \<and> match ID None (CR7Parser [(ID, ''x''), (EOF, [])] [])
       = Returned \<lparr>tokens = [(ID, ''x''), (EOF, [])], pos = 1, out = []\<rparr>
   \<and> pos \<lparr>tokens = [(ID, ''x''), (EOF, [])], pos = 1, out = []\<rparr>
       = pos (CR7Parser [(ID, ''x''), (EOF, [])] []) + 1"
proof -
  have 1: "parse_program Gui 12 \<in> set (grammar_procedures Gui 12)"
    by (simp add: grammar_procedures_def)
  have 2: "match ID None (CR7Parser [(ID, ''x''), (EOF, [])] [])
      = Returned \<lparr>tokens = [(ID, ''x''), (EOF, [])], pos = 1, out = []\<rparr>"
    by (simp add: match_def peek_def current_token_def advance_def CR7Parser_def)
  from cursor_never_moves_back[of Gui 12 "CR7Parser scenario_E []"] 1
  have "pos (CR7Parser scenario_E []) \<le> pos (state_of (parse_program Gui 12 (CR7Parser scenario_E [])))"
    by blast
  moreover from cursor_never_moves_back[of _ _ "CR7Parser [(ID, ''x''), (EOF, [])] []" ID None
      "\<lparr>tokens = [(ID, ''x''), (EOF, [])], pos = 1, out = []\<rparr>"] 2
  have "pos \<lparr>tokens = [(ID, ''x''), (EOF, [])], pos = 1, out = []\<rparr>
       = pos (CR7Parser [(ID, ''x''), (EOF, [])] []) + 1"
    by blast
  ultimately show ?thesis using 2 by blast
qed

lemma tokenize_ends_with_EOF:
  "tokenize var code = Inr toks \<Longrightarrow> toks \<noteq> [] \<and> fst (last toks) = EOF"
  by (auto simp: tokenize_def split: sum.splits)

text \<open>
  C10. On a token list that the scanner has produced the cursor stays below the length
  of the list and \<^verbatim>\<open>self.tokens[self.pos]\<close> never raises: for the whole run from a fresh
  cursor, and for every grammar procedure from every state whose cursor is inside the
  list. A procedure that starts on the \<open>EOF\<close> token leaves the cursor there.
\<close>

theorem cursor_stays_in_bounds:
  assumes "tokenize var code = Inr toks"
  shows "(\<forall>n output_box.
           \<not> is_IndexError (parse_program var n (CR7Parser toks output_box))
           \<and> pos (state_of (parse_program var n (CR7Parser toks output_box))) < length toks)
       \<and> (\<forall>n. \<forall>m \<in> set (grammar_procedures var n). \<forall>s.
            tokens s = toks \<and> pos s < length toks \<longrightarrow>
              \<not> is_IndexError (m s)
              \<and> pos (state_of (m s)) < length toks
              \<and> (\<forall>v. current_token s = Some (EOF, v) \<longrightarrow> pos (state_of (m s)) = pos s))"
proof -
  from assms have toks: "toks \<noteq> []" "fst (last toks) = EOF"
    using tokenize_ends_with_EOF by blast+
  have step: "\<not> is_IndexError (m s) \<and> pos (state_of (m s)) < length toks
      \<and> (\<forall>v. current_token s = Some (EOF, v) \<longrightarrow> pos (state_of (m s)) = pos s)"
    if "m \<in> set (grammar_procedures var n)" and "tokens s = toks" and "pos s < length toks"
    for m n s
  proof -
    from that(2,3) toks have "in_bounds s" by (simp add: in_bounds_def)
    moreover from wb_grammar_procedures[OF that(1)] have "behaves_at m s"
      by (simp add: well_behaved_def)
    ultimately show ?thesis using that(2) by (auto simp: behaves_at_def in_bounds_def)
  qed
  have "\<not> is_IndexError (parse_program var n (CR7Parser toks output_box))
           \<and> pos (state_of (parse_program var n (CR7Parser toks output_box))) < length toks"
    for n output_box
    using step[of "parse_program var n" n "CR7Parser toks output_box"] toks
    by (simp add: grammar_procedures_def CR7Parser_def)
  with step show ?thesis by blast
qed

theorem cursor_stays_in_bounds_witness:
  "tokenize Compiler ''play main() { x = ; }'' = Inr scenario_C
   \<and> \<not> is_IndexError (parse_program Compiler 8 (CR7Parser scenario_C []))
   \<and> pos (state_of (parse_program Compiler 8 (CR7Parser scenario_C []))) < length scenario_C"
  using cursor_stays_in_bounds[OF scenario_C_tokens[of Compiler]] scenario_C_tokens[of Compiler]
  by blast

section \<open>Two runs on the same tokens\<close>

text \<open>
  C8. Two runs of the recognizer on the same token list, each from a fresh cursor,
  report the same: the same kind of result (success or diagnostic), the same final
  cursor and the same lines written by the run. This holds whatever the display showed
  before each run and whatever depth each run was given, as long as both have come back.
\<close>

theorem recognizer_runs_agree:
  assumes "\<not> is_OutOfFuel (parse_program var n (CR7Parser toks box1))"
      and "\<not> is_OutOfFuel (parse_program var m (CR7Parser toks box2))"
  shows "report box1 (parse_program var n (CR7Parser toks box1))
       = report box2 (parse_program var m (CR7Parser toks box2))"
proof -
  let ?r = "\<lambda>n. parse_program var n (CR7Parser toks [])"
  have frame: "parse_program var n (CR7Parser toks box) = map_outcome (prepend box) (?r n)"
    for n box
  proof -
    from wb_parse_program[of var n]
    have "parse_program var n (prepend box (CR7Parser toks []))
        = map_outcome (prepend box) (?r n)"
      by (simp add: well_behaved_def behaves_at_def)
    then show ?thesis by (simp only: prepend_CR7Parser)
  qed
  have rep: "report box (map_outcome (prepend box) r) = r" for box r
    by (cases r) (simp_all add: report_def prepend_def)
  have fin: "\<not> is_OutOfFuel r" if "\<not> is_OutOfFuel (map_outcome (prepend box) r)" for box r
    using that by (cases r) simp_all
  from assms(1) have n: "\<not> is_OutOfFuel (?r n)"
    unfolding frame[of n box1] by (rule fin)
  from assms(2) have m: "\<not> is_OutOfFuel (?r m)"
    unfolding frame[of m box2] by (rule fin)
  have "?r n = ?r m"
  proof (cases "n \<le> m")
    case True
    then obtain k where "m = n + k" using le_Suc_ex by blast
    with n below_parse_program[of var n k] show ?thesis by (simp add: below_def)
  next
    case False
    then obtain k where "n = m + k" using le_Suc_ex[of m n] by auto
    with m below_parse_program[of var m k] show ?thesis by (simp add: below_def)
  qed
  then show ?thesis
    unfolding frame[of n box1] frame[of m box2] rep by simp
qed

theorem recognizer_runs_agree_witness:
  "\<not> is_OutOfFuel (parse_program Compiler 8 (CR7Parser scenario_C []))
   \<and> \<not> is_OutOfFuel (parse_program Compiler 9 (CR7Parser scenario_C [Completed]))
   \<and> report [] (parse_program Compiler 8 (CR7Parser scenario_C []))
       = report [Completed] (parse_program Compiler 9 (CR7Parser scenario_C [Completed]))"
proof -
  have 1: "\<not> is_OutOfFuel (parse_program Compiler 8 (CR7Parser scenario_C []))"
    by (simp add: scenario_C_run)
  have 2: "\<not> is_OutOfFuel (parse_program Compiler 9 (CR7Parser scenario_C [Completed]))"
    using parse_program_settled[OF scenario_C_run, of Compiler 1 "[Completed]"] by simp
  from recognizer_runs_agree[OF 1 2] 1 2 show ?thesis by blast
qed


section \<open>The scanner\<close>

subsection \<open>The matches cover the text\<close>






















subsection \<open>Texts of whitespace and comments\<close>

lemma re_COMMENT_other: "c \<noteq> CHR ''/'' \<Longrightarrow> re_COMMENT (c # cs) = None"
  by (cases cs) simp_all

lemma blank_match:
  "is_blank c \<Longrightarrow>
   token_regex token_specification (c # cs) = Some (SKIP, c # takeWhile is_blank cs)"
  by (auto simp: token_specification_def is_blank_def re_plus_def re_NUMBER_def
        is_digit_def is_ascii_letter_def is_op_char_def newline_def dquote_def
        re_COMMENT_other)

lemma newline_match:
  "token_regex token_specification (newline # cs) = Some (NEWLINE, [newline])"
  by (cases cs)
     (simp_all add: token_specification_def re_plus_def re_NUMBER_def
        is_digit_def is_ascii_letter_def is_op_char_def newline_def dquote_def)

lemma comment_match:
  "token_regex token_specification (CHR ''/'' # CHR ''/'' # cs)
     = Some (COMMENT, CHR ''/'' # CHR ''/'' # takeWhile (\<lambda>x. x \<noteq> newline) cs)"
  by (simp add: token_specification_def)

lemma only_whitespace_dropWhile_blank:
  "only_whitespace_and_comments s \<Longrightarrow> only_whitespace_and_comments (dropWhile is_blank s)"
  by (induction s) (auto split: if_splits)

lemma only_whitespace_discarded:
  "only_whitespace_and_comments s \<Longrightarrow> m \<in> set (finditer s) \<Longrightarrow> discarded (fst m)"
proof (induction s rule: finditer.induct)
  case 1
  then show ?case by simp
next
  case (2 c cs)
  consider (blank) "is_blank c" | (nl) "c = newline"
    | (comment) cs' where "\<not> is_blank c" "c \<noteq> newline" "c = CHR ''/''" "cs = CHR ''/'' # cs'"
    using 2(3) by (cases cs) (auto split: if_splits)
  then show ?case
  proof cases
    case blank
    let ?v = "c # takeWhile is_blank cs"
    have m: "token_regex token_specification (c # cs) = Some (SKIP, ?v)"
      using blank by (rule blank_match)
    have rest: "drop (length ?v - 1) cs = dropWhile is_blank cs"
      by (simp add: dropWhile_eq_drop)
    from 2(3) blank have "only_whitespace_and_comments cs" by simp
    then have "only_whitespace_and_comments (drop (length ?v - 1) cs)"
      unfolding rest by (rule only_whitespace_dropWhile_blank)
    with 2(2)[OF m refl] 2(4) m show ?thesis
      by (auto simp: discarded_def)
  next
    case nl
    have m: "token_regex token_specification (c # cs) = Some (NEWLINE, [newline])"
      unfolding nl by (rule newline_match)
    from 2(3) nl have "only_whitespace_and_comments cs" by simp
    with 2(2)[OF m refl] 2(4) m show ?thesis
      by (auto simp: discarded_def)
  next
    case comment
    let ?v = "CHR ''/'' # CHR ''/'' # takeWhile (\<lambda>x. x \<noteq> newline) cs'"
    have m: "token_regex token_specification (c # cs) = Some (COMMENT, ?v)"
      unfolding comment by (rule comment_match)
    have rest: "drop (length ?v - 1) cs = dropWhile (\<lambda>x. x \<noteq> newline) cs'"
      by (simp add: comment dropWhile_eq_drop)
    from 2(3) comment have "only_whitespace_and_comments (dropWhile (\<lambda>x. x \<noteq> newline) cs')"
      by (simp add: newline_def)
    then have "only_whitespace_and_comments (drop (length ?v - 1) cs)"
      unfolding rest .
    with 2(2)[OF m refl] 2(4) m show ?thesis
      by (auto simp: discarded_def)
  qed
qed

lemma tokenize_loop_discarded:
  "(\<And>m. m \<in> set ms \<Longrightarrow> discarded (fst m)) \<Longrightarrow> tokenize_loop var ms acc = Inr acc"
proof (induction ms)
  case Nil
  show ?case by simp
next
  case (Cons m ms)
  obtain k v where m: "m = (k, v)" by (cases m)
  from Cons.prems[of m] m have "discarded k" by simp
  moreover from Cons have "tokenize_loop var ms acc = Inr acc" by simp
  ultimately show ?case by (auto simp: m discarded_def)
qed

text \<open>
  Blanks are the space and the tab: \<^verbatim>\<open>SKIP\<close> is \<^verbatim>\<open>[ \t]+\<close>. Another character that
  Python counts as whitespace, such as the carriage return, matches \<^verbatim>\<open>MISMATCH\<close> and
  ends the scan with an error.
\<close>

lemma carriage_return_is_mismatch:
  "tokenize var [CHR 0x0D] = Inl (''Unexpected token: '' @ [CHR 0x0D])"
  by (cases var; hypsubst; code_simp)

text \<open>
  C7, as amended. On a text that holds only spaces, tabs, newlines (\<^verbatim>\<open>\n\<close>) and line
  comments the scanner succeeds, and the token list is the \<open>EOF\<close> token alone.
\<close>

theorem whitespace_only_gives_EOF:
  "only_whitespace_and_comments code \<Longrightarrow> tokenize var code = Inr [(EOF, [])]"
  using tokenize_loop_discarded[of "finditer code" var "[]"] only_whitespace_discarded[of code]
  by (simp add: tokenize_def)

theorem whitespace_only_gives_EOF_witness:
  "only_whitespace_and_comments ('' // note'' @ [newline, CHR 0x09])
   \<and> tokenize Gui ('' // note'' @ [newline, CHR 0x09]) = Inr [(EOF, [])]"
proof -
  have "only_whitespace_and_comments ('' // note'' @ [newline, CHR 0x09])"
    by (simp add: is_blank_def newline_def)
  from this whitespace_only_gives_EOF[OF this] show ?thesis by blast
qed

text \<open>
  C7 as the spec states it fails on a text that is a single carriage return: the text
  holds only a whitespace character, and the scanner raises instead of giving the
  \<open>EOF\<close> token.
\<close>

theorem whitespace_only_counterexample:
  "whitespace_characters_and_comments_only [CHR 0x0D]
   \<and> tokenize Compiler [CHR 0x0D] = Inl (''Unexpected token: '' @ [CHR 0x0D])
   \<and> tokenize Compiler [CHR 0x0D] \<noteq> Inr [(EOF, [])]"
proof -
  have "whitespace_characters_and_comments_only [CHR 0x0D]"
    by (simp add: is_whitespace_def)
  moreover have "tokenize Compiler [CHR 0x0D] = Inl (''Unexpected token: '' @ [CHR 0x0D])"
    by (rule carriage_return_is_mismatch)
  ultimately show ?thesis by simp
qed

section \<open>Function declarations\<close>















end
